theory Spec2Isabelle
  imports Complex_Main
begin

section \<open>The simulated-annealing cell of the notebook\<close>

text \<open>
  The program is the code cell of \<^verbatim>\<open>notebooks/Simulated Annealing.ipynb\<close> that follows
  the definition of \<^verbatim>\<open>rosenbrock\<close>:
  \<^verbatim>\<open>
  x0 = 2-np.random.rand(2)*4
  x0_temp = x0
  x0_best = x0
  f0_temp = rosenbrock(x0_temp[0],x0_temp[1])
  f0_best = rosenbrock(x0_best[0],x0_best[1])
  count = 0
  kmax = 1000
  for k in range(kmax):
      x1 = x0_temp + np.random.randn()
      f1 = rosenbrock(x1[0],x1[1])
      T = (kmax - k) / kmax
      if f1 < f0_temp:
          x0_temp = x1
          f0_temp = f1
      elif np.exp(-(f1 - f0_temp)/T) > np.random.rand():
          x0_temp = x1
          f0_temp = f1
          count += 1
      else:
          continue
      if f0_temp < f0_best:
          x0_best = x0_temp
          f0_best = f0_temp
  \<close>
  Conventions of the embedding:
  \<^item> IEEE doubles are idealised as \<^typ>\<open>real\<close>; \<^verbatim>\<open>np.exp\<close> is \<^const>\<open>exp\<close>. Rounding,
    overflow and NaN are outside the model, with one exception: where a property depends
    on how the two sums of \<^verbatim>\<open>x0_temp + np.random.randn()\<close> are rounded, the sums are
    taken in double precision (\<open>add_scalar_f64\<close> below).
  \<^item> A numpy array of shape \<^verbatim>\<open>(2,)\<close> is a pair of reals. The script never updates an
    array in place (every \<^verbatim>\<open>+\<close> allocates), so the aliasing of \<^verbatim>\<open>x0\<close>,
    \<^verbatim>\<open>x0_temp\<close> and \<^verbatim>\<open>x0_best\<close> is not observable and values suffice.
  \<^item> The global generator behind \<^verbatim>\<open>np.random\<close> is not part of the repository. It is a
    parameter: a state type \<open>'g\<close> with one transition per kind of draw. The generator state
    is a field of the program state, threaded through every draw in program order.
  \<^item> \<^verbatim>\<open>kmax\<close> is the literal 1000 in the cell; it is a parameter of \<open>run\<close> here, and
    \<open>script\<close> is the cell itself.
  \<^item> The only statement of the cell that can raise is the integer true division
    \<^verbatim>\<open>(kmax - k) / kmax\<close> (\<^verbatim>\<open>ZeroDivisionError\<close> for \<^verbatim>\<open>kmax = 0\<close>); the division by
    \<^verbatim>\<open>T\<close> is a numpy float division, which never raises. The loop calls the body only
    with \<open>k\<close> in \<open>range(kmax)\<close>, where \<open>T\<close> is positive, so the value HOL gives to a
    division by zero is never used by a run.
\<close>

subsection \<open>Data\<close>

datatype error = ZeroDivisionError

type_synonym point = "real \<times> real"

record 'g random_source =
  rand :: "'g \<Rightarrow> real \<times> 'g"
  randn :: "'g \<Rightarrow> real \<times> 'g"

record 'g state =
  x0_temp :: point
  x0_best :: point
  f0_temp :: real
  f0_best :: real
  count :: int
  gen :: 'g

subsection \<open>The objective\<close>

text \<open>\<^verbatim>\<open>def rosenbrock(x, y, a=1, B=100): return (a-x)**2 + B*((y-x**2))**2\<close>\<close>

definition rosenbrock :: "real \<Rightarrow> real \<Rightarrow> real \<Rightarrow> real \<Rightarrow> real" where
  "rosenbrock x y a B = (a - x)\<^sup>2 + B * (y - x\<^sup>2)\<^sup>2"

text \<open>The call \<^verbatim>\<open>rosenbrock(p[0], p[1])\<close> with the default \<^verbatim>\<open>a\<close> and \<^verbatim>\<open>B\<close>.\<close>

definition cost :: "point \<Rightarrow> real" where
  "cost p = rosenbrock (fst p) (snd p) 1 100"

subsection \<open>Initialisation\<close>

text \<open>\<^verbatim>\<open>x0 = 2-np.random.rand(2)*4\<close>: two uniform draws, one per coordinate.\<close>

definition initial_point :: "'g random_source \<Rightarrow> 'g \<Rightarrow> point \<times> 'g" where
  "initial_point R g =
     (let (u0, g1) = rand R g;
          (u1, g2) = rand R g1
      in ((2 - u0 * 4, 2 - u1 * 4), g2))"

definition initial :: "'g random_source \<Rightarrow> 'g \<Rightarrow> 'g state" where
  "initial R g =
     (let (x0, g2) = initial_point R g
      in \<lparr>x0_temp = x0, x0_best = x0, f0_temp = cost x0, f0_best = cost x0,
          count = 0, gen = g2\<rparr>)"

subsection \<open>One iteration\<close>

text \<open>\<^verbatim>\<open>x0_temp + z\<close> for a scalar \<^verbatim>\<open>z\<close>: numpy broadcasts the scalar over the array.\<close>

definition add_scalar :: "point \<Rightarrow> real \<Rightarrow> point" where
  "add_scalar x z = (fst x + z, snd x + z)"

text \<open>\<^verbatim>\<open>T = (kmax - k) / kmax\<close> on Python integers.\<close>

definition temperature :: "int \<Rightarrow> int \<Rightarrow> error + real" where
  "temperature kmax k =
     (if kmax = 0 then Inl ZeroDivisionError
      else Inr (real_of_int (kmax - k) / real_of_int kmax))"

text \<open>The statements after the accept/reject branch, reached only without \<^verbatim>\<open>continue\<close>.\<close>

definition track_best :: "'g state \<Rightarrow> 'g state" where
  "track_best s =
     (if f0_temp s < f0_best s then s\<lparr>x0_best := x0_temp s, f0_best := f0_temp s\<rparr> else s)"

text \<open>
  The loop body at iteration \<open>k\<close>. The uniform draw happens only when the \<^verbatim>\<open>elif\<close>
  condition is evaluated, that is when \<^verbatim>\<open>f1 < f0_temp\<close> is false.
\<close>

definition step :: "'g random_source \<Rightarrow> int \<Rightarrow> int \<Rightarrow> 'g state \<Rightarrow> error + 'g state" where
  "step R kmax k s =
     (let (z, g1) = randn R (gen s);
          x1 = add_scalar (x0_temp s) z;
          f1 = cost x1
      in case temperature kmax k of
           Inl e \<Rightarrow> Inl e
         | Inr T \<Rightarrow>
             if f1 < f0_temp s then
               Inr (track_best (s\<lparr>x0_temp := x1, f0_temp := f1, gen := g1\<rparr>))
             else
               (let (u, g2) = rand R g1
                in if exp (- (f1 - f0_temp s) / T) > u then
                     Inr (track_best
                       (s\<lparr>x0_temp := x1, f0_temp := f1, count := count s + 1, gen := g2\<rparr>))
                   else Inr (s\<lparr>gen := g2\<rparr>)))"

subsection \<open>The loop and the run\<close>

text \<open>\<^verbatim>\<open>range(kmax)\<close>: empty for \<^verbatim>\<open>kmax <= 0\<close>.\<close>

definition py_range :: "int \<Rightarrow> int list" where
  "py_range n = [0..n - 1]"

fun loop :: "'g random_source \<Rightarrow> int \<Rightarrow> int list \<Rightarrow> 'g state \<Rightarrow> error + 'g state" where
  "loop R kmax [] s = Inr s"
| "loop R kmax (k # ks) s =
     (case step R kmax k s of Inl e \<Rightarrow> Inl e | Inr s' \<Rightarrow> loop R kmax ks s')"

definition run :: "'g random_source \<Rightarrow> 'g \<Rightarrow> int \<Rightarrow> error + 'g state" where
  "run R g kmax = loop R kmax (py_range kmax) (initial R g)"

definition script :: "'g random_source \<Rightarrow> 'g \<Rightarrow> error + 'g state" where
  "script R g = run R g 1000"

text \<open>
  The state after the first \<open>j\<close> iterations of a run is
  \<open>loop R kmax (take j (py_range kmax)) (initial R g)\<close>; \<open>j = 0\<close> is the state right after
  initialisation.
\<close>

definition after :: "'g random_source \<Rightarrow> 'g \<Rightarrow> int \<Rightarrow> nat \<Rightarrow> error + 'g state" where
  "after R g kmax j = loop R kmax (take j (py_range kmax)) (initial R g)"

subsection \<open>What one iteration reads before it decides\<close>

text \<open>The names of the loop body, as functions of the state the iteration starts in.\<close>

definition candidate :: "'g random_source \<Rightarrow> 'g state \<Rightarrow> point" where
  "candidate R s = add_scalar (x0_temp s) (fst (randn R (gen s)))"

definition uniform_draw :: "'g random_source \<Rightarrow> 'g state \<Rightarrow> real" where
  "uniform_draw R s = fst (rand R (snd (randn R (gen s))))"

subsection \<open>A replayed generator, for evaluating the program on concrete draws\<close>

text \<open>
  The generator state is the list of values still to be returned; either kind of draw
  returns the next one.
\<close>

definition pop :: "real list \<Rightarrow> real \<times> real list" where
  "pop g = (case g of [] \<Rightarrow> (0, []) | z # zs \<Rightarrow> (z, zs))"

definition replay :: "real list random_source" where
  "replay = \<lparr>rand = pop, randn = pop\<rparr>"

subsection \<open>A concrete run on the replayed generator\<close>

text \<open>
  The draws \<open>1/2, 1/2\<close> place the initial point at the origin, where the cost is 1.
  Iteration 0 of a run with \<open>kmax = 2\<close> draws the noise 1 and moves to \<open>(1, 1)\<close>, of
  cost 0; iteration 1 draws the noise 1, proposes \<open>(2, 2)\<close> of cost 401, draws the uniform
  value \<open>1/2\<close> and rejects.
\<close>

definition tape :: "real list" where
  "tape = [1/2, 1/2, 1, 1, 1/2]"

definition s0 :: "real list state" where
  "s0 = \<lparr>x0_temp = (0, 0), x0_best = (0, 0), f0_temp = 1, f0_best = 1, count = 0,
          gen = [1, 1, 1/2]\<rparr>"

definition s1 :: "real list state" where
  "s1 = \<lparr>x0_temp = (1, 1), x0_best = (1, 1), f0_temp = 0, f0_best = 0, count = 0,
          gen = [1, 1/2]\<rparr>"

definition s2 :: "real list state" where
  "s2 = \<lparr>x0_temp = (1, 1), x0_best = (1, 1), f0_temp = 0, f0_best = 0, count = 0,
          gen = []\<rparr>"

text \<open>
  The same state at \<open>(1, 1)\<close> with the uniform draw 0 ahead: the worse candidate
  \<open>(2, 2)\<close> is accepted by the \<^verbatim>\<open>elif\<close> branch, and the best point stays behind.
\<close>

definition s1m :: "real list state" where
  "s1m = \<lparr>x0_temp = (1, 1), x0_best = (1, 1), f0_temp = 0, f0_best = 0, count = 0,
          gen = [1, 0]\<rparr>"

definition s2m :: "real list state" where
  "s2m = \<lparr>x0_temp = (2, 2), x0_best = (1, 1), f0_temp = 401, f0_best = 0, count = 1,
          gen = []\<rparr>"

subsection \<open>Invariants of the loop\<close>

text \<open>Both recorded costs are the costs of the recorded points.\<close>

definition consistent :: "'g state \<Rightarrow> bool" where
  "consistent s \<longleftrightarrow> f0_temp s = cost (x0_temp s) \<and> f0_best s = cost (x0_best s)"


text \<open>The difference of the two coordinates is that of the initial point.\<close>

definition diagonal :: "point \<Rightarrow> point \<Rightarrow> bool" where
  "diagonal x0 p \<longleftrightarrow> snd p - fst p = snd x0 - fst x0"

definition on_diagonal :: "point \<Rightarrow> 'g state \<Rightarrow> bool" where
  "on_diagonal x0 s \<longleftrightarrow> diagonal x0 (x0_temp s) \<and> diagonal x0 (x0_best s)"

subsection \<open>Two runs on the same draws\<close>

text \<open>
  Two generators, possibly of different types, started in related states return the same
  values to the same sequence of requests when the relation is kept by every draw.
\<close>

definition same_draws :: "'g random_source \<Rightarrow> 'h random_source \<Rightarrow> ('g \<Rightarrow> 'h \<Rightarrow> bool) \<Rightarrow> bool" where
  "same_draws R1 R2 rel \<longleftrightarrow>
     (\<forall>g h. rel g h \<longrightarrow>
        fst (rand R1 g) = fst (rand R2 h) \<and> rel (snd (rand R1 g)) (snd (rand R2 h)) \<and>
        fst (randn R1 g) = fst (randn R2 h) \<and> rel (snd (randn R1 g)) (snd (randn R2 h)))"

text \<open>Two program states that differ at most in their (related) generator states.\<close>

definition same_search :: "('g \<Rightarrow> 'h \<Rightarrow> bool) \<Rightarrow> 'g state \<Rightarrow> 'h state \<Rightarrow> bool" where
  "same_search rel s t \<longleftrightarrow>
     x0_temp s = x0_temp t \<and> f0_temp s = f0_temp t \<and>
     x0_best s = x0_best t \<and> f0_best s = f0_best t \<and>
     count s = count t \<and> rel (gen s) (gen t)"

subsection \<open>The sums of the neighbour in double precision\<close>





section \<open>Properties\<close>

subsection \<open>The loop body, branch by branch\<close>

text \<open>
  The body raises exactly when \<open>kmax = 0\<close>; otherwise its result is one of the three
  branches of the \<^verbatim>\<open>if\<close>/\<^verbatim>\<open>elif\<close>/\<^verbatim>\<open>else\<close>.
\<close>

lemma step_Inr:
  "step R kmax k s = Inr s' \<longleftrightarrow>
     kmax \<noteq> 0 \<and>
     s' = (if cost (candidate R s) < f0_temp s then
             track_best (s\<lparr>x0_temp := candidate R s, f0_temp := cost (candidate R s),
                             gen := snd (randn R (gen s))\<rparr>)
           else if exp (- (cost (candidate R s) - f0_temp s) / (real_of_int (kmax - k) / real_of_int kmax))
                     > uniform_draw R s then
             track_best (s\<lparr>x0_temp := candidate R s, f0_temp := cost (candidate R s),
                             count := count s + 1,
                             gen := snd (rand R (snd (randn R (gen s))))\<rparr>)
           else s\<lparr>gen := snd (rand R (snd (randn R (gen s))))\<rparr>)"
  by (auto simp: step_def temperature_def candidate_def uniform_draw_def Let_def split_def)

lemma step_Inl: "step R kmax k s = Inl e \<longleftrightarrow> kmax = 0"
  by (cases e) (auto simp: step_def temperature_def Let_def split_def)

subsection \<open>The loop\<close>

lemma loop_append:
  "loop R kmax (ks @ ks') s =
     (case loop R kmax ks s of Inl e \<Rightarrow> Inl e | Inr s' \<Rightarrow> loop R kmax ks' s')"
  by (induction ks arbitrary: s) (auto split: sum.splits)

lemma loop_invariant:
  assumes "\<And>k s s'. P s \<Longrightarrow> step R kmax k s = Inr s' \<Longrightarrow> P s'"
    and "P s" and "loop R kmax ks s = Inr s'"
  shows "P s'"
  using assms(2,3)
proof (induction ks arbitrary: s)
  case Nil
  then show ?case by simp
next
  case (Cons k ks)
  then show ?case
    by (auto split: sum.splits intro: assms(1))
qed

lemma py_range_nonpos: "kmax \<le> 0 \<Longrightarrow> py_range kmax = []"
  by (simp add: py_range_def)

text \<open>
  The loop returns: the body can only raise for \<open>kmax = 0\<close>, and then the range is empty.
\<close>

lemma loop_returns:
  assumes "kmax \<noteq> 0 \<or> ks = []"
  shows "\<exists>s'. loop R kmax ks s = Inr s'"
  using assms
proof (induction ks arbitrary: s)
  case Nil
  then show ?case by simp
next
  case (Cons k ks)
  then have kmax: "kmax \<noteq> 0" by simp
  then obtain s1 where "step R kmax k s = Inr s1"
    by (simp add: step_Inr)
  with Cons.IH [of s1] kmax show ?case by simp
qed

lemma after_returns: "\<exists>s. after R g kmax j = Inr s"
  unfolding after_def by (rule loop_returns) (auto simp: py_range_def)


text \<open>From the last iteration on, the state after \<open>j\<close> iterations is the result of the run.\<close>

lemma after_all:
  assumes "nat kmax \<le> j"
  shows "after R g kmax j = run R g kmax"
proof -
  have "length (py_range kmax) = nat kmax"
    by (simp add: py_range_def)
  with assms show ?thesis
    by (simp add: after_def run_def)
qed

subsection \<open>Preservation of the invariants\<close>

lemma step_best_le: "step R kmax k s = Inr s' \<Longrightarrow> f0_best s' \<le> f0_best s"
  by (auto simp: step_Inr track_best_def split: if_splits)

lemma loop_best_le: "loop R kmax ks s = Inr s' \<Longrightarrow> f0_best s' \<le> f0_best s"
proof (induction ks arbitrary: s)
  case Nil
  then show ?case by simp
next
  case (Cons k ks)
  then obtain s1 where 1: "step R kmax k s = Inr s1" and 2: "loop R kmax ks s1 = Inr s'"
    by (auto split: sum.splits)
  from Cons.IH [OF 2] step_best_le [OF 1] show ?case by simp
qed

lemma after_mono:
  assumes "i \<le> j" and "after R g kmax i = Inr si" and "after R g kmax j = Inr sj"
  shows "f0_best sj \<le> f0_best si"
proof -
  let ?ks = "py_range kmax"
  have "take j ?ks = take i ?ks @ drop i (take j ?ks)"
    using assms(1) by (metis append_take_drop_id min.absorb1 take_take)
  then have "after R g kmax j = (case after R g kmax i of Inl e \<Rightarrow> Inl e
      | Inr s' \<Rightarrow> loop R kmax (drop i (take j ?ks)) s')"
    unfolding after_def by (metis loop_append)
  with assms(2,3) have "loop R kmax (drop i (take j ?ks)) si = Inr sj"
    by simp
  then show ?thesis by (rule loop_best_le)
qed

lemma consistent_initial: "consistent (initial R g)"
  by (simp add: consistent_def initial_def split_def Let_def)

lemma consistent_step: "consistent s \<Longrightarrow> step R kmax k s = Inr s' \<Longrightarrow> consistent s'"
  by (auto simp: step_Inr track_best_def consistent_def split: if_splits)

lemma consistent_loop:
  assumes "loop R kmax ks (initial R g) = Inr s"
  shows "consistent s"
  using consistent_step consistent_initial assms
  by (rule loop_invariant)

lemma step_best_changes:
  assumes "step R kmax k s = Inr s'"
    and "x0_best s' \<noteq> x0_best s \<or> f0_best s' \<noteq> f0_best s"
  shows "x0_temp s' = candidate R s \<and> f0_temp s' = cost (candidate R s) \<and>
         f0_temp s' < f0_best s \<and> x0_best s' = x0_temp s' \<and> f0_best s' = f0_temp s'"
  using assms by (auto simp: step_Inr track_best_def split: if_splits)




lemma diagonal_add_scalar: "diagonal x0 p \<Longrightarrow> diagonal x0 (add_scalar p z)"
  by (simp add: diagonal_def add_scalar_def)

lemma diagonal_candidate: "on_diagonal x0 s \<Longrightarrow> diagonal x0 (candidate R s)"
  by (simp add: on_diagonal_def candidate_def diagonal_add_scalar)

lemma on_diagonal_initial: "on_diagonal (fst (initial_point R g)) (initial R g)"
  by (simp add: on_diagonal_def diagonal_def initial_def split_def Let_def)

lemma on_diagonal_step:
  assumes "on_diagonal x0 s" and "step R kmax k s = Inr s'"
  shows "on_diagonal x0 s'"
proof -
  from assms(1) have "diagonal x0 (candidate R s)"
    by (rule diagonal_candidate)
  with assms show ?thesis
    by (auto simp: step_Inr track_best_def on_diagonal_def split: if_splits)
qed

lemma diagonal_line:
  assumes "diagonal x0 p"
  shows "\<exists>t. p = (fst x0 + t, snd x0 + t)"
proof
  from assms show "p = (fst x0 + (fst p - fst x0), snd x0 + (fst p - fst x0))"
    by (cases p) (simp add: diagonal_def)
qed

text \<open>
  With exact sums, as in \<open>step\<close>, the candidate, the current point and the best point
  after any number of iterations are the initial point moved along \<open>(1, 1)\<close>.
\<close>

lemma exact_sums_stay_on_line:
  "\<exists>s. after R g kmax j = Inr s \<and>
     (\<exists>z. candidate R s = (fst (x0_temp s) + z, snd (x0_temp s) + z)) \<and>
     (\<exists>t. candidate R s = (fst (fst (initial_point R g)) + t, snd (fst (initial_point R g)) + t)) \<and>
     (\<exists>t. x0_temp s = (fst (fst (initial_point R g)) + t, snd (fst (initial_point R g)) + t)) \<and>
     (\<exists>t. x0_best s = (fst (fst (initial_point R g)) + t, snd (fst (initial_point R g)) + t))"
proof -
  let ?x0 = "fst (initial_point R g)"
  obtain s where a: "after R g kmax j = Inr s"
    using after_returns [of R g kmax j] by blast
  have inv: "on_diagonal ?x0 s"
    using on_diagonal_step on_diagonal_initial a [unfolded after_def]
    by (rule loop_invariant)
  have "\<exists>z. candidate R s = (fst (x0_temp s) + z, snd (x0_temp s) + z)"
    by (auto simp: candidate_def add_scalar_def)
  moreover from inv have "\<exists>t. candidate R s = (fst ?x0 + t, snd ?x0 + t)"
    by (intro diagonal_line diagonal_candidate)
  moreover from inv have "\<exists>t. x0_temp s = (fst ?x0 + t, snd ?x0 + t)"
    by (intro diagonal_line) (simp add: on_diagonal_def)
  moreover from inv have "\<exists>t. x0_best s = (fst ?x0 + t, snd ?x0 + t)"
    by (intro diagonal_line) (simp add: on_diagonal_def)
  moreover note a
  ultimately show ?thesis by blast
qed

subsection \<open>Runs on the same draws\<close>

lemma same_draws_rand:
  assumes "same_draws R1 R2 rel" and "rel g h"
  shows "fst (rand R1 g) = fst (rand R2 h)" and "rel (snd (rand R1 g)) (snd (rand R2 h))"
  using assms by (simp_all add: same_draws_def)

lemma same_draws_randn:
  assumes "same_draws R1 R2 rel" and "rel g h"
  shows "fst (randn R1 g) = fst (randn R2 h)" and "rel (snd (randn R1 g)) (snd (randn R2 h))"
  using assms by (simp_all add: same_draws_def)

lemma same_search_initial:
  assumes "same_draws R1 R2 rel" and "rel g h"
  shows "same_search rel (initial R1 g) (initial R2 h)"
proof -
  note a = same_draws_rand [OF assms]
  note b = same_draws_rand [OF assms(1) a(2)]
  from a b show ?thesis
    by (simp add: same_search_def initial_def initial_point_def split_def Let_def)
qed

lemma same_search_step:
  assumes "same_draws R1 R2 rel" and "same_search rel s t"
  shows "rel_sum (=) (same_search rel) (step R1 kmax k s) (step R2 kmax k t)"
proof (cases "kmax = 0")
  case True
  then show ?thesis
    by (simp add: step_def temperature_def split_def Let_def)
next
  case False
  from assms(2) have g: "rel (gen s) (gen t)"
    by (simp add: same_search_def)
  note a = same_draws_randn [OF assms(1) g]
  note b = same_draws_rand [OF assms(1) a(2)]
  from assms(2) a(1) have c: "candidate R1 s = candidate R2 t"
    by (simp add: candidate_def same_search_def)
  from b(1) have u: "uniform_draw R1 s = uniform_draw R2 t"
    by (simp add: uniform_draw_def)
  obtain s' where s': "step R1 kmax k s = Inr s'"
    using False by (simp add: step_Inr)
  obtain t' where t': "step R2 kmax k t = Inr t'"
    using False by (simp add: step_Inr)
  from s' t' assms(2) a(2) b(2) have "same_search rel s' t'"
    unfolding step_Inr c u
    by (auto simp: same_search_def track_best_def split: if_splits)
  with s' t' show ?thesis by simp
qed

lemma same_search_loop:
  assumes "same_draws R1 R2 rel" and "same_search rel s t"
  shows "rel_sum (=) (same_search rel) (loop R1 kmax ks s) (loop R2 kmax ks t)"
  using assms(2)
proof (induction ks arbitrary: s t)
  case Nil
  then show ?case by simp
next
  case (Cons k ks)
  note st = same_search_step [OF assms(1) Cons.prems, of kmax k]
  show ?case
  proof (cases "step R1 kmax k s")
    case (Inl e)
    with st show ?thesis
      by (cases "step R2 kmax k t") simp_all
  next
    case (Inr s')
    with st obtain t' where t': "step R2 kmax k t = Inr t'" and r: "same_search rel s' t'"
      by (cases "step R2 kmax k t") simp_all
    from Cons.IH [OF r] Inr t' show ?thesis by simp
  qed
qed

lemma same_search_run:
  assumes "same_draws R1 R2 rel" and "rel g h"
  shows "rel_sum (=) (same_search rel) (run R1 g kmax) (run R2 h kmax)"
  unfolding run_def
  using assms(1) same_search_initial [OF assms] by (rule same_search_loop)

lemma step_gen:
  assumes "step R kmax k s = Inr s'"
  shows "gen s' = (if cost (candidate R s) < f0_temp s then snd (randn R (gen s))
                else snd (rand R (snd (randn R (gen s)))))"
  using assms by (auto simp: step_Inr track_best_def)

subsection \<open>The concrete run, evaluated\<close>

lemma exp_neg_le_half:
  fixes x :: real
  assumes "1 \<le> x"
  shows "exp (- x) \<le> 1 / 2"
proof -
  have "2 \<le> 1 + x" using assms by simp
  also have "\<dots> \<le> exp x" by (rule exp_ge_add_one_self)
  finally have "inverse (exp x) \<le> inverse 2"
    by (intro le_imp_inverse_le) simp_all
  then show ?thesis by (simp add: exp_minus inverse_eq_divide)
qed

lemma initial_tape: "initial replay tape = s0"
  by (simp add: initial_def initial_point_def replay_def pop_def cost_def rosenbrock_def
      tape_def s0_def)

lemma candidate_s0: "candidate replay s0 = (1, 1)"
  by (simp add: candidate_def add_scalar_def replay_def pop_def s0_def)

lemma candidate_s1: "candidate replay s1 = (2, 2)"
  by (simp add: candidate_def add_scalar_def replay_def pop_def s1_def)

lemma uniform_s1: "uniform_draw replay s1 = 1/2"
  by (simp add: uniform_draw_def replay_def pop_def s1_def)

lemma cost_11: "cost (1, 1) = 0"
  by (simp add: cost_def rosenbrock_def)

lemma cost_22: "cost (2, 2) = 401"
  by (simp add: cost_def rosenbrock_def)

lemma step_s0: "step replay 2 0 s0 = Inr s1"
  by (simp add: step_Inr candidate_s0 cost_11 track_best_def)
     (simp add: s0_def s1_def replay_def pop_def)

lemma step_s1: "step replay 2 1 s1 = Inr s2"
proof -
  have "exp (- 802) \<le> (1 / 2 :: real)"
    by (rule exp_neg_le_half) simp
  then have "\<not> 1 / 2 < exp (- (401 - 0) / (real_of_int (2 - 1) / real_of_int 2))"
    by simp
  moreover have "f0_temp s1 = 0" by (simp add: s1_def)
  ultimately show ?thesis
    by (simp add: step_Inr candidate_s1 cost_22 uniform_s1)
       (simp add: s1_def s2_def replay_def pop_def)
qed

lemma run_tape: "run replay tape 2 = Inr s2"
  by (simp add: run_def py_range_def upto_rec1 initial_tape step_s0 step_s1)

lemma after_tape_0: "after replay tape 2 0 = Inr s0"
  by (simp add: after_def initial_tape)

lemma after_tape_1: "after replay tape 2 1 = Inr s1"
  by (simp add: after_def py_range_def upto_rec1 initial_tape step_s0)

lemma after_tape_2: "after replay tape 2 2 = Inr s2"
  by (simp add: after_def py_range_def upto_rec1 initial_tape step_s0 step_s1)

lemma candidate_s1m: "candidate replay s1m = (2, 2)"
  by (simp add: candidate_def add_scalar_def replay_def pop_def s1m_def)

lemma uniform_s1m: "uniform_draw replay s1m = 0"
  by (simp add: uniform_draw_def replay_def pop_def s1m_def)

lemma step_s1m: "step replay 2 1 s1m = Inr s2m"
proof -
  have "f0_temp s1m = 0" by (simp add: s1m_def)
  then show ?thesis
    by (simp add: step_Inr candidate_s1m cost_22 uniform_s1m track_best_def)
       (simp add: s1m_def s2m_def replay_def pop_def)
qed



subsection \<open>Rounding to a double\<close>








section \<open>The claims\<close>

subsection \<open>Acceptance\<close>

text \<open>
  C1. At every iteration \<open>k\<close> of \<open>range(kmax)\<close> the body returns normally, with
  \<open>T = (kmax - k) / kmax\<close>, and the candidate is accepted, that is \<open>x0_temp\<close> and
  \<open>f0_temp\<close> become the candidate and its cost, if and only if the candidate's cost is
  below \<open>f0_temp\<close> or \<open>exp (- (f1 - f0_temp) / T)\<close> exceeds the uniform draw that follows
  the noise draw; otherwise \<open>x0_temp\<close> and \<open>f0_temp\<close> keep their values.
\<close>

theorem acceptance_rule:
  assumes "0 \<le> k" and "k < kmax"
  shows "\<exists>T s'. temperature kmax k = Inr T \<and> step R kmax k s = Inr s' \<and>
           (if cost (candidate R s) < f0_temp s \<or>
               exp (- (cost (candidate R s) - f0_temp s) / T) > uniform_draw R s
            then x0_temp s' = candidate R s \<and> f0_temp s' = cost (candidate R s)
            else x0_temp s' = x0_temp s \<and> f0_temp s' = f0_temp s)"
proof -
  from assms have kmax: "kmax \<noteq> 0" by simp
  then have T: "temperature kmax k = Inr (real_of_int (kmax - k) / real_of_int kmax)"
    by (simp add: temperature_def)
  obtain s' where s': "step R kmax k s = Inr s'"
    using kmax by (simp add: step_Inr)
  then have "if cost (candidate R s) < f0_temp s \<or>
               exp (- (cost (candidate R s) - f0_temp s) /
                      (real_of_int (kmax - k) / real_of_int kmax)) > uniform_draw R s
            then x0_temp s' = candidate R s \<and> f0_temp s' = cost (candidate R s)
            else x0_temp s' = x0_temp s \<and> f0_temp s' = f0_temp s"
    by (auto simp: step_Inr track_best_def)
  with T s' show ?thesis by blast
qed

theorem acceptance_rule_witness:
  "(\<exists>T s'. temperature 2 0 = Inr T \<and> step replay 2 0 s0 = Inr s' \<and>
      x0_temp s' = (1, 1) \<and> f0_temp s' = 0) \<and>
   (\<exists>T s'. temperature 2 1 = Inr T \<and> step replay 2 1 s1 = Inr s' \<and>
      x0_temp s' = (1, 1) \<and> f0_temp s' = 0) \<and>
   (\<exists>T s'. temperature 2 1 = Inr T \<and> step replay 2 1 s1m = Inr s' \<and>
      x0_temp s' = (2, 2) \<and> f0_temp s' = 401)"
proof -
  have a: "f0_temp s0 = 1" "f0_temp s1 = 0" "x0_temp s1 = (1, 1)" "f0_temp s1m = 0"
    by (simp_all add: s0_def s1_def s1m_def)
  have r: "\<not> 1 / 2 < exp (- 802 :: real)"
    using exp_neg_le_half [of 802] by simp
  have improving: "\<exists>T s'. temperature 2 0 = Inr T \<and> step replay 2 0 s0 = Inr s' \<and>
      x0_temp s' = (1, 1) \<and> f0_temp s' = 0"
    using acceptance_rule [of 0 2 replay s0] by (simp add: candidate_s0 cost_11 a)
  obtain T s' where T: "temperature 2 1 = Inr T" and s': "step replay 2 1 s1 = Inr s'"
    and d: "if cost (candidate replay s1) < f0_temp s1 \<or>
               exp (- (cost (candidate replay s1) - f0_temp s1) / T) > uniform_draw replay s1
            then x0_temp s' = candidate replay s1 \<and> f0_temp s' = cost (candidate replay s1)
            else x0_temp s' = x0_temp s1 \<and> f0_temp s' = f0_temp s1"
    using acceptance_rule [of 1 2 replay s1] by auto
  from T have "T = 1 / 2" by (simp add: temperature_def)
  with d r have "x0_temp s' = (1, 1) \<and> f0_temp s' = 0"
    by (simp add: candidate_s1 cost_22 uniform_s1 a)
  with T s' have rejected: "\<exists>T s'. temperature 2 1 = Inr T \<and> step replay 2 1 s1 = Inr s' \<and>
      x0_temp s' = (1, 1) \<and> f0_temp s' = 0"
    by blast
  obtain T s' where T: "temperature 2 1 = Inr T" and s': "step replay 2 1 s1m = Inr s'"
    and d: "if cost (candidate replay s1m) < f0_temp s1m \<or>
               exp (- (cost (candidate replay s1m) - f0_temp s1m) / T) > uniform_draw replay s1m
            then x0_temp s' = candidate replay s1m \<and> f0_temp s' = cost (candidate replay s1m)
            else x0_temp s' = x0_temp s1m \<and> f0_temp s' = f0_temp s1m"
    using acceptance_rule [of 1 2 replay s1m] by auto
  from d have "x0_temp s' = (2, 2) \<and> f0_temp s' = 401"
    by (simp add: candidate_s1m cost_22 uniform_s1m a)
  with T s' have "\<exists>T s'. temperature 2 1 = Inr T \<and> step replay 2 1 s1m = Inr s' \<and>
      x0_temp s' = (2, 2) \<and> f0_temp s' = 401"
    by blast
  with improving rejected show ?thesis by blast
qed

subsection \<open>Best-so-far tracking\<close>

text \<open>
  C2. In every run the best cost is non-increasing in the number of iterations done; and
  an iteration changes the best point or the best cost only if it accepted its candidate
  and the new current cost is strictly below the old best cost, in which case the best
  pair becomes the current pair.
\<close>

theorem best_cost_non_increasing:
  "(\<forall>i j si sj. i \<le> j \<and> after R g kmax i = Inr si \<and> after R g kmax j = Inr sj
       \<longrightarrow> f0_best sj \<le> f0_best si) \<and>
   (\<forall>k s s'. step R kmax k s = Inr s' \<and>
         (x0_best s' \<noteq> x0_best s \<or> f0_best s' \<noteq> f0_best s)
       \<longrightarrow> x0_temp s' = candidate R s \<and> f0_temp s' = cost (candidate R s) \<and>
           f0_temp s' < f0_best s \<and> x0_best s' = x0_temp s' \<and> f0_best s' = f0_temp s')"
proof (rule conjI)
  show "\<forall>i j si sj. i \<le> j \<and> after R g kmax i = Inr si \<and> after R g kmax j = Inr sj
       \<longrightarrow> f0_best sj \<le> f0_best si"
    using after_mono [of _ _ R g kmax] by blast
next
  show "\<forall>k s s'. step R kmax k s = Inr s' \<and>
         (x0_best s' \<noteq> x0_best s \<or> f0_best s' \<noteq> f0_best s)
       \<longrightarrow> x0_temp s' = candidate R s \<and> f0_temp s' = cost (candidate R s) \<and>
           f0_temp s' < f0_best s \<and> x0_best s' = x0_temp s' \<and> f0_best s' = f0_temp s'"
  proof (intro allI impI)
    fix k and s s' :: "'a state"
    assume "step R kmax k s = Inr s' \<and> (x0_best s' \<noteq> x0_best s \<or> f0_best s' \<noteq> f0_best s)"
    then show "x0_temp s' = candidate R s \<and> f0_temp s' = cost (candidate R s) \<and>
           f0_temp s' < f0_best s \<and> x0_best s' = x0_temp s' \<and> f0_best s' = f0_temp s'"
      using step_best_changes [of R kmax k s s'] by simp
  qed
qed

theorem best_cost_non_increasing_witness:
  "after replay tape 2 0 = Inr s0 \<and> after replay tape 2 1 = Inr s1 \<and>
   after replay tape 2 2 = Inr s2 \<and> step replay 2 0 s0 = Inr s1 \<and>
   f0_best s0 = 1 \<and> f0_best s1 = 0 \<and> f0_best s2 = 0 \<and>
   f0_best s2 \<le> f0_best s1 \<and> f0_best s1 \<le> f0_best s0 \<and>
   x0_temp s1 = candidate replay s0 \<and> f0_temp s1 = cost (candidate replay s0) \<and>
   f0_temp s1 < f0_best s0 \<and> x0_best s1 = x0_temp s1 \<and> f0_best s1 = f0_temp s1"
proof -
  note inst = best_cost_non_increasing [of replay tape 2]
  from inst have mono: "\<forall>i j si sj. i \<le> j \<and> after replay tape 2 i = Inr si \<and>
      after replay tape 2 j = Inr sj \<longrightarrow> f0_best sj \<le> f0_best si"
    by (rule conjunct1)
  from inst have chg: "\<forall>k s s'. step replay 2 k s = Inr s' \<and>
         (x0_best s' \<noteq> x0_best s \<or> f0_best s' \<noteq> f0_best s)
       \<longrightarrow> x0_temp s' = candidate replay s \<and> f0_temp s' = cost (candidate replay s) \<and>
           f0_temp s' < f0_best s \<and> x0_best s' = x0_temp s' \<and> f0_best s' = f0_temp s'"
    by (rule conjunct2)
  have v: "f0_best s0 = 1" "f0_best s1 = 0" "f0_best s2 = 0"
    by (simp_all add: s0_def s1_def s2_def)
  then have ne: "f0_best s1 \<noteq> f0_best s0" by simp
  have 1: "f0_best s2 \<le> f0_best s1"
    using mono [rule_format, of 1 2 s1 s2] after_tape_1 after_tape_2 by simp
  have 2: "f0_best s1 \<le> f0_best s0"
    using mono [rule_format, of 0 1 s0 s1] after_tape_0 after_tape_1 by simp
  have 3: "x0_temp s1 = candidate replay s0 \<and> f0_temp s1 = cost (candidate replay s0) \<and>
      f0_temp s1 < f0_best s0 \<and> x0_best s1 = x0_temp s1 \<and> f0_best s1 = f0_temp s1"
    using chg [rule_format, of 0 s0 s1] step_s0 ne by simp
  from 1 2 3 v after_tape_0 after_tape_1 after_tape_2 step_s0 show ?thesis by simp
qed




subsection \<open>A run without iterations\<close>

text \<open>
  C4, as the code has it. The cell validates nothing: for \<open>kmax \<le> 0\<close> the range is empty,
  no iteration executes, nothing is raised, and the run ends in the state the
  initialisation built.
\<close>

theorem no_iterations_no_error:
  assumes "kmax \<le> 0"
  shows "run R g kmax = Inr (initial R g)"
  using assms by (simp add: run_def py_range_nonpos)

theorem no_iterations_no_error_witness:
  "(- 5 :: int) \<le> 0 \<and> run replay tape (- 5) = Inr s0"
  using no_iterations_no_error [of "- 5" replay tape] by (simp add: initial_tape)

text \<open>
  C4 as stated says that a run with \<open>kmax = 0\<close> raises an error. On the draws
  \<open>1/2, 1/2, 1, 1, 1/2\<close> it returns the initial state, with the three remaining draws
  unread.
\<close>

theorem zero_iterations_returns_initial:
  "run replay [1/2, 1/2, 1, 1, 1/2] 0 =
     Inr \<lparr>x0_temp = (0, 0), x0_best = (0, 0), f0_temp = 1, f0_best = 1, count = 0,
          gen = [1, 1, 1/2]\<rparr>"
  by (simp add: run_def py_range_def initial_def initial_point_def replay_def pop_def
      cost_def rosenbrock_def)

subsection \<open>The neighbour\<close>

text \<open>
  C5. The claim asks for one independent normal sample per coordinate. The cell calls
  \<^verbatim>\<open>np.random.randn()\<close> without a size, so one scalar is drawn and broadcast: from
  \<open>(0, 3)\<close> with the draws 1 and 2 ahead the candidate is \<open>(1, 4)\<close>, both coordinates moved
  by the first draw, and the second draw is still unread after the iteration. One sample
  per coordinate would have given \<open>(1, 5)\<close>.
\<close>

theorem neighbour_broadcasts_one_draw:
  "candidate replay
     \<lparr>x0_temp = (0, 3), x0_best = (0, 3), f0_temp = 901, f0_best = 901, count = 0,
      gen = [1, 2]\<rparr> = (1, 4) \<and>
   step replay 1000 0
     \<lparr>x0_temp = (0, 3), x0_best = (0, 3), f0_temp = 901, f0_best = 901, count = 0,
      gen = [1, 2]\<rparr> =
   Inr \<lparr>x0_temp = (1, 4), x0_best = (1, 4), f0_temp = 900, f0_best = 900, count = 0,
        gen = [2]\<rparr>"
  by (simp add: step_def temperature_def track_best_def candidate_def add_scalar_def
      replay_def pop_def cost_def rosenbrock_def Let_def)

subsection \<open>The temperature\<close>

text \<open>
  C6. With \<open>T = (kmax - k) / kmax\<close> and a positive \<open>kmax\<close>, the temperature of every
  iteration index \<open>k\<close> of \<open>range(kmax)\<close> is computed without error and is strictly
  positive, so the acceptance exponent never divides by zero.
\<close>

theorem temperature_positive:
  assumes "0 < kmax" and "0 \<le> k" and "k < kmax"
  shows "\<exists>T. temperature kmax k = Inr T \<and> 0 < T \<and> T \<noteq> 0"
  using assms by (simp add: temperature_def)

theorem temperature_positive_witness:
  "(0 :: int) < 1000 \<and> (0 :: int) \<le> 999 \<and> (999 :: int) < 1000 \<and>
   (\<exists>T. temperature 1000 999 = Inr T \<and> 0 < T \<and> T \<noteq> 0)"
  using temperature_positive [of 1000 999] by simp

subsection \<open>Rejection\<close>

text \<open>
  C7. When an iteration rejects its candidate, that is when the candidate's cost is not
  below \<open>f0_temp\<close> and \<open>exp (- (f1 - f0_temp) / T)\<close> does not exceed the uniform draw, the
  current point, the current cost, the best point, the best cost and the counter are
  what they were before the iteration. (The generator has advanced by two draws.)
\<close>

theorem rejection_keeps_state:
  assumes "step R kmax k s = Inr s'"
    and "temperature kmax k = Inr T"
    and "\<not> cost (candidate R s) < f0_temp s"
    and "\<not> exp (- (cost (candidate R s) - f0_temp s) / T) > uniform_draw R s"
  shows "x0_temp s' = x0_temp s \<and> f0_temp s' = f0_temp s \<and>
         x0_best s' = x0_best s \<and> f0_best s' = f0_best s \<and> count s' = count s"
proof -
  from assms(1) have "kmax \<noteq> 0" by (simp add: step_Inr)
  with assms(2) have "T = real_of_int (kmax - k) / real_of_int kmax"
    by (simp add: temperature_def)
  with assms(1,3,4) have "s' = s\<lparr>gen := snd (rand R (snd (randn R (gen s))))\<rparr>"
    by (simp add: step_Inr)
  then show ?thesis by simp
qed

theorem rejection_keeps_state_witness:
  "step replay 2 1 s1 = Inr s2 \<and> temperature 2 1 = Inr (1 / 2) \<and>
   \<not> cost (candidate replay s1) < f0_temp s1 \<and>
   \<not> exp (- (cost (candidate replay s1) - f0_temp s1) / (1 / 2)) > uniform_draw replay s1 \<and>
   x0_temp s2 = x0_temp s1 \<and> f0_temp s2 = f0_temp s1 \<and>
   x0_best s2 = x0_best s1 \<and> f0_best s2 = f0_best s1 \<and> count s2 = count s1"
proof -
  have T: "temperature 2 1 = Inr (1 / 2)"
    by (simp add: temperature_def)
  have f: "f0_temp s1 = 0" by (simp add: s1_def)
  have a: "\<not> cost (candidate replay s1) < f0_temp s1"
    by (simp add: candidate_s1 cost_22 f)
  have "\<not> 1 / 2 < exp (- 802 :: real)"
    using exp_neg_le_half [of 802] by simp
  then have b: "\<not> exp (- (cost (candidate replay s1) - f0_temp s1) / (1 / 2))
      > uniform_draw replay s1"
    by (simp add: candidate_s1 cost_22 uniform_s1 f)
  from rejection_keeps_state [OF step_s1 T a b] step_s1 T a b show ?thesis
    by blast
qed

subsection \<open>The best cost belongs to the best point\<close>

text \<open>
  C8. After initialisation and after every iteration of a run (no iteration raises),
  \<open>f0_best\<close> is the cost of \<open>x0_best\<close>. The states are those between iterations; for
  \<open>j\<close> at least \<open>kmax\<close> the state is the result of the run.
\<close>

theorem best_cost_is_cost_of_best_point:
  "\<exists>s. after R g kmax j = Inr s \<and> f0_best s = cost (x0_best s)"
proof -
  obtain s where a: "after R g kmax j = Inr s"
    using after_returns [of R g kmax j] by blast
  then have "consistent s"
    unfolding after_def by (rule consistent_loop)
  with a show ?thesis by (auto simp: consistent_def)
qed

theorem best_cost_is_cost_of_best_point_witness:
  "after replay tape 2 1 = Inr s1 \<and> f0_best s1 = cost (x0_best s1) \<and> f0_best s1 = 0"
  using best_cost_is_cost_of_best_point [of replay tape 2 1] after_tape_1
  by (simp add: s1_def)

subsection \<open>Determinism and the order of draws\<close>

text \<open>
  C9. Two runs whose generators return the same draws, in particular two runs of the
  same generator from the same seed, either raise the same error or end in the same
  search state, best point and best cost included: the generator is the only input of a
  run besides \<open>kmax\<close>. An iteration reads the generator in program order: one normal
  draw for the noise, followed by one uniform draw only when the candidate's cost is not
  below \<open>f0_temp\<close>.
\<close>

theorem draws_in_program_order:
  "(\<forall>R2 rel g h. same_draws R R2 rel \<and> rel g h \<longrightarrow>
      rel_sum (=) (same_search rel) (run R g kmax) (run R2 h kmax)) \<and>
   (\<forall>k s s'. step R kmax k s = Inr s' \<longrightarrow>
      gen s' = (if cost (candidate R s) < f0_temp s then snd (randn R (gen s))
                else snd (rand R (snd (randn R (gen s))))))"
proof (rule conjI)
  show "\<forall>R2 rel g h. same_draws R R2 rel \<and> rel g h \<longrightarrow>
      rel_sum (=) (same_search rel) (run R g kmax) (run R2 h kmax)"
  proof (intro allI impI)
    fix R2 rel g h
    assume "same_draws R R2 rel \<and> rel g h"
    then have "same_draws R R2 rel" and "rel g h" by simp_all
    then show "rel_sum (=) (same_search rel) (run R g kmax) (run R2 h kmax)"
      by (rule same_search_run)
  qed
next
  show "\<forall>k s s'. step R kmax k s = Inr s' \<longrightarrow>
      gen s' = (if cost (candidate R s) < f0_temp s then snd (randn R (gen s))
                else snd (rand R (snd (randn R (gen s)))))"
  proof (intro allI impI)
    fix k s s'
    assume "step R kmax k s = Inr s'"
    then show "gen s' = (if cost (candidate R s) < f0_temp s then snd (randn R (gen s))
                else snd (rand R (snd (randn R (gen s)))))"
      by (rule step_gen)
  qed
qed


theorem draws_in_program_order_witness:
  "same_draws replay replay (=) \<and>
   rel_sum (=) (same_search (=)) (run replay tape 2) (run replay tape 2) \<and>
   run replay tape 2 = Inr s2 \<and>
   step replay 2 0 s0 = Inr s1 \<and> cost (candidate replay s0) < f0_temp s0 \<and>
   gen s0 = [1, 1, 1/2] \<and> gen s1 = [1, 1/2] \<and> gen s1 = snd (randn replay (gen s0)) \<and>
   step replay 2 1 s1 = Inr s2 \<and> \<not> cost (candidate replay s1) < f0_temp s1 \<and>
   gen s2 = [] \<and> gen s2 = snd (rand replay (snd (randn replay (gen s1))))"
proof -
  note inst = draws_in_program_order [of replay 2]
  from inst have det: "\<forall>R2 rel g h. same_draws replay R2 rel \<and> rel g (h :: real list) \<longrightarrow>
      rel_sum (=) (same_search rel) (run replay g 2) (run R2 h 2)"
    by (rule conjunct1)
  from inst have ord: "\<forall>k s s'. step replay 2 k s = Inr s' \<longrightarrow>
      gen s' = (if cost (candidate replay s) < f0_temp s then snd (randn replay (gen s))
                else snd (rand replay (snd (randn replay (gen s)))))"
    by (rule conjunct2)
  have d: "same_draws replay replay (=)"
    by (simp add: same_draws_def)
  have f: "f0_temp s0 = 1" "f0_temp s1 = 0"
    by (simp_all add: s0_def s1_def)
  have a: "cost (candidate replay s0) < f0_temp s0"
    by (simp add: candidate_s0 cost_11 f)
  have b: "\<not> cost (candidate replay s1) < f0_temp s1"
    by (simp add: candidate_s1 cost_22 f)
  have 0: "rel_sum (=) (same_search (=)) (run replay tape 2) (run replay tape 2)"
    using det [rule_format, of replay "(=)" tape tape] d by simp
  have 1: "gen s1 = snd (randn replay (gen s0))"
    using ord [rule_format, OF step_s0] a by simp
  have 2: "gen s2 = snd (rand replay (snd (randn replay (gen s1))))"
    using ord [rule_format, OF step_s1] b by simp
  have 3: "gen s0 = [1, 1, 1/2]" "gen s1 = [1, 1/2]" "gen s2 = []"
    by (simp_all add: s0_def s1_def s2_def)
  from 0 1 2 3 a b d step_s0 step_s1 run_tape show ?thesis by simp
qed

subsection \<open>The search and the diagonal line\<close>



end
